theory Spec2Isabelle
  imports Main "HOL-Library.Word"
begin

section \<open>JavaScript strings\<close>

text \<open>
  A JavaScript string is a sequence of UTF-16 code units. Literals of the source are
  written with \<open>js\<close>, which maps each ASCII character to its code unit.
\<close>

type_synonym code_unit = "16 word"
type_synonym jsstring = "code_unit list"

definition cu :: "char \<Rightarrow> code_unit" where
  "cu c = of_nat (of_char c)"

definition js :: "string \<Rightarrow> jsstring" where
  "js s = map cu s"

section \<open>JSON values\<close>

text \<open>
  The values that \<open>JSON.parse\<close> can return. An object is the list of its own properties
  in JavaScript's property order (array-index keys ascending, then the other keys in
  insertion order). A number keeps the literal it was read from: the double it denotes
  is not computed, and printing it back is a parameter of \<open>JSON_stringify\<close>.
\<close>

datatype json =
    JNull
  | JBool bool
  | JNum jsstring
  | JStr jsstring
  | JArr "json list"
  | JObj "(jsstring \<times> json) list"

subsection \<open>JSON.stringify\<close>

definition hex_digit :: "nat \<Rightarrow> code_unit" where
  "hex_digit n = (if n < 10 then of_nat (48 + n) else of_nat (87 + n))"

definition UnicodeEscape :: "code_unit \<Rightarrow> jsstring" where
  "UnicodeEscape c =
     (let n = unat c
      in [0x5C, 0x75, hex_digit (n div 4096), hex_digit (n div 256 mod 16),
          hex_digit (n div 16 mod 16), hex_digit (n mod 16)])"

definition is_lead :: "code_unit \<Rightarrow> bool" where
  "is_lead c = (0xD800 \<le> c \<and> c \<le> 0xDBFF)"

definition is_trail :: "code_unit \<Rightarrow> bool" where
  "is_trail c = (0xDC00 \<le> c \<and> c \<le> 0xDFFF)"

text \<open>
  One code point of QuoteJSONString that is a single code unit: the two-character
  escapes of the table, \<open>\uXXXX\<close> for the other control characters and for a surrogate
  (which is unpaired when it is met here), the code unit itself otherwise.
\<close>

definition quote_unit :: "code_unit \<Rightarrow> jsstring" where
  "quote_unit c =
     (if c = 0x08 then [0x5C, 0x62]
      else if c = 0x09 then [0x5C, 0x74]
      else if c = 0x0A then [0x5C, 0x6E]
      else if c = 0x0C then [0x5C, 0x66]
      else if c = 0x0D then [0x5C, 0x72]
      else if c = 0x22 then [0x5C, 0x22]
      else if c = 0x5C then [0x5C, 0x5C]
      else if c < 0x20 \<or> is_lead c \<or> is_trail c then UnicodeEscape c
      else [c])"

fun quote_units :: "jsstring \<Rightarrow> jsstring" where
  "quote_units [] = []"
| "quote_units [c] = quote_unit c"
| "quote_units (c # d # s) =
     (if is_lead c \<and> is_trail d then c # d # quote_units s
      else quote_unit c @ quote_units (d # s))"

definition QuoteJSONString :: "jsstring \<Rightarrow> jsstring" where
  "QuoteJSONString s = 0x22 # quote_units s @ [0x22]"

fun join_comma :: "jsstring list \<Rightarrow> jsstring" where
  "join_comma [] = []"
| "join_comma [x] = x"
| "join_comma (x # y # r) = x @ 0x2C # join_comma (y # r)"

fun JSON_stringify :: "(jsstring \<Rightarrow> jsstring) \<Rightarrow> json \<Rightarrow> jsstring" where
  "JSON_stringify num JNull = js ''null''"
| "JSON_stringify num (JBool b) = (if b then js ''true'' else js ''false'')"
| "JSON_stringify num (JNum l) = num l"
| "JSON_stringify num (JStr s) = QuoteJSONString s"
| "JSON_stringify num (JArr vs) =
     0x5B # join_comma (map (JSON_stringify num) vs) @ [0x5D]"
| "JSON_stringify num (JObj ms) =
     0x7B # join_comma (map (\<lambda>(k, v). QuoteJSONString k @ 0x3A # JSON_stringify num v) ms)
       @ [0x7D]"

subsection \<open>JSON.parse\<close>

definition is_ws :: "code_unit \<Rightarrow> bool" where
  "is_ws c = (c = 0x09 \<or> c = 0x0A \<or> c = 0x0D \<or> c = 0x20)"

definition skip_ws :: "jsstring \<Rightarrow> jsstring" where
  "skip_ws s = dropWhile is_ws s"

definition is_digit :: "code_unit \<Rightarrow> bool" where
  "is_digit c = (0x30 \<le> c \<and> c \<le> 0x39)"

definition hex_value :: "code_unit \<Rightarrow> nat option" where
  "hex_value c =
     (if 0x30 \<le> c \<and> c \<le> 0x39 then Some (unat c - 48)
      else if 0x61 \<le> c \<and> c \<le> 0x66 then Some (unat c - 87)
      else if 0x41 \<le> c \<and> c \<le> 0x46 then Some (unat c - 55)
      else None)"

definition hex4 :: "code_unit \<Rightarrow> code_unit \<Rightarrow> code_unit \<Rightarrow> code_unit \<Rightarrow> code_unit option" where
  "hex4 a b c d =
     (case (hex_value a, hex_value b, hex_value c, hex_value d) of
        (Some x, Some y, Some z, Some w) \<Rightarrow> Some (of_nat (((x * 16 + y) * 16 + z) * 16 + w))
      | _ \<Rightarrow> None)"

definition simple_escape :: "code_unit \<Rightarrow> code_unit option" where
  "simple_escape e =
     (if e = 0x22 then Some 0x22
      else if e = 0x5C then Some 0x5C
      else if e = 0x2F then Some 0x2F
      else if e = 0x62 then Some 0x08
      else if e = 0x66 then Some 0x0C
      else if e = 0x6E then Some 0x0A
      else if e = 0x72 then Some 0x0D
      else if e = 0x74 then Some 0x09
      else None)"

definition cons_result :: "code_unit \<Rightarrow> (jsstring \<times> jsstring) option \<Rightarrow> (jsstring \<times> jsstring) option" where
  "cons_result c r = (case r of None \<Rightarrow> None | Some (s, rest) \<Rightarrow> Some (c # s, rest))"

text \<open>
  The characters of a string literal after its opening quote, up to and including the
  closing quote; the result is the string's value and the input that follows.
\<close>

fun scan_string :: "jsstring \<Rightarrow> (jsstring \<times> jsstring) option" where
  "scan_string [] = None"
| "scan_string (c # cs) =
     (if c = 0x22 then Some ([], cs)
      else if c = 0x5C then
        (case cs of
           [] \<Rightarrow> None
         | e # es \<Rightarrow>
             if e = 0x75 then
               (case es of
                  h1 # h2 # h3 # h4 # r \<Rightarrow>
                    (case hex4 h1 h2 h3 h4 of
                       None \<Rightarrow> None
                     | Some u \<Rightarrow> cons_result u (scan_string r))
                | _ \<Rightarrow> None)
             else
               (case simple_escape e of
                  None \<Rightarrow> None
                | Some u \<Rightarrow> cons_result u (scan_string es)))
      else if c < 0x20 then None
      else cons_result c (scan_string cs))"

text \<open>
  A number token: an optional minus, an integer part without a leading zero, an optional
  fraction and an optional exponent. The result is the token and the input after it.
\<close>

definition scan_exponent :: "jsstring \<Rightarrow> jsstring \<Rightarrow> (jsstring \<times> jsstring) option" where
  "scan_exponent l s =
     (case s of
        [] \<Rightarrow> Some (l, s)
      | e # t \<Rightarrow>
          if e = 0x65 \<or> e = 0x45 then
            (let (sg, u) = (case t of
                              [] \<Rightarrow> ([], t)
                            | c # u' \<Rightarrow> if c = 0x2B \<or> c = 0x2D then ([c], u') else ([], t))
             in if takeWhile is_digit u = [] then None
                else Some (l @ e # sg @ takeWhile is_digit u, dropWhile is_digit u))
          else Some (l, s))"

definition scan_fraction :: "jsstring \<Rightarrow> jsstring \<Rightarrow> (jsstring \<times> jsstring) option" where
  "scan_fraction l s =
     (case s of
        [] \<Rightarrow> Some (l, s)
      | c # t \<Rightarrow>
          if c = 0x2E then
            (if takeWhile is_digit t = [] then None
             else scan_exponent (l @ c # takeWhile is_digit t) (dropWhile is_digit t))
          else scan_exponent l s)"

definition scan_int :: "jsstring \<Rightarrow> jsstring \<Rightarrow> (jsstring \<times> jsstring) option" where
  "scan_int l s =
     (case s of
        [] \<Rightarrow> None
      | c # t \<Rightarrow>
          if c = 0x30 then scan_fraction (l @ [c]) t
          else if is_digit c then
            scan_fraction (l @ c # takeWhile is_digit t) (dropWhile is_digit t)
          else None)"

definition scan_number :: "jsstring \<Rightarrow> (jsstring \<times> jsstring) option" where
  "scan_number s =
     (case s of
        [] \<Rightarrow> None
      | c # t \<Rightarrow> if c = 0x2D then scan_int [c] t else scan_int [] s)"

fun strip_prefix :: "jsstring \<Rightarrow> jsstring \<Rightarrow> jsstring option" where
  "strip_prefix [] s = Some s"
| "strip_prefix (p # ps) [] = None"
| "strip_prefix (p # ps) (c # cs) = (if p = c then strip_prefix ps cs else None)"

text \<open>
  An array index is the canonical decimal form of an integer below \<open>2^32 - 1\<close>. Own
  properties with such keys come first in an object, in ascending numeric order.
\<close>

definition array_index :: "jsstring \<Rightarrow> int option" where
  "array_index k =
     (if k = [] \<or> \<not> list_all is_digit k \<or> (hd k = 0x30 \<and> k \<noteq> [0x30]) then None
      else (let n = foldl (\<lambda>a c. a * 10 + (uint c - 48)) 0 k
            in if n < 4294967295 then Some n else None))"

fun insert_index :: "int \<Rightarrow> jsstring \<Rightarrow> json \<Rightarrow> (jsstring \<times> json) list \<Rightarrow> (jsstring \<times> json) list" where
  "insert_index i k v [] = [(k, v)]"
| "insert_index i k v ((k', v') # ms) =
     (case array_index k' of
        None \<Rightarrow> (k, v) # (k', v') # ms
      | Some j \<Rightarrow> if i < j then (k, v) # (k', v') # ms else (k', v') # insert_index i k v ms)"

fun replace_value :: "jsstring \<Rightarrow> json \<Rightarrow> (jsstring \<times> json) list \<Rightarrow> (jsstring \<times> json) list" where
  "replace_value k v [] = []"
| "replace_value k v ((k', v') # ms) =
     (if k' = k then (k, v) # ms else (k', v') # replace_value k v ms)"

definition CreateDataProperty :: "jsstring \<Rightarrow> json \<Rightarrow> (jsstring \<times> json) list \<Rightarrow> (jsstring \<times> json) list" where
  "CreateDataProperty k v ms =
     (if k \<in> fst ` set ms then replace_value k v ms
      else (case array_index k of
              None \<Rightarrow> ms @ [(k, v)]
            | Some i \<Rightarrow> insert_index i k v ms))"

text \<open>
  The recursive descent over values. Each function takes the input with leading white
  space already skipped and returns the value with the input that follows it.
  \<open>parse_elements\<close> reads the elements of a non-empty array up to its closing bracket,
  \<open>parse_members\<close> the members of a non-empty object up to its closing brace; a
  repeated key overwrites the earlier value. The tests \<open>length r < length s\<close> hold
  whenever they are reached (\<open>parse_value_shrinks\<close> below); they make the recursion
  well-founded by construction. Resource limits of an engine (nesting depth) are not
  part of the model.
\<close>

function (sequential) parse_value :: "jsstring \<Rightarrow> (json \<times> jsstring) option"
  and parse_elements :: "json list \<Rightarrow> jsstring \<Rightarrow> (json \<times> jsstring) option"
  and parse_members :: "(jsstring \<times> json) list \<Rightarrow> jsstring \<Rightarrow> (json \<times> jsstring) option"
where
  "parse_value [] = None"
| "parse_value (c # cs) =
     (if c = 0x22 then
        (case scan_string cs of None \<Rightarrow> None | Some (s, r) \<Rightarrow> Some (JStr s, r))
      else if c = 0x5B then
        (case skip_ws cs of
           [] \<Rightarrow> None
         | d # r \<Rightarrow> if d = 0x5D then Some (JArr [], r) else parse_elements [] (d # r))
      else if c = 0x7B then
        (case skip_ws cs of
           [] \<Rightarrow> None
         | d # r \<Rightarrow> if d = 0x7D then Some (JObj [], r) else parse_members [] (d # r))
      else if c = 0x6E then
        (case strip_prefix (js ''ull'') cs of None \<Rightarrow> None | Some r \<Rightarrow> Some (JNull, r))
      else if c = 0x74 then
        (case strip_prefix (js ''rue'') cs of None \<Rightarrow> None | Some r \<Rightarrow> Some (JBool True, r))
      else if c = 0x66 then
        (case strip_prefix (js ''alse'') cs of None \<Rightarrow> None | Some r \<Rightarrow> Some (JBool False, r))
      else
        (case scan_number (c # cs) of None \<Rightarrow> None | Some (l, r) \<Rightarrow> Some (JNum l, r)))"
| "parse_elements acc s =
     (case parse_value s of
        None \<Rightarrow> None
      | Some (v, r) \<Rightarrow>
          (case skip_ws r of
             [] \<Rightarrow> None
           | d # r' \<Rightarrow>
               if d = 0x5D then Some (JArr (acc @ [v]), r')
               else if d = 0x2C \<and> length r' < length s
               then parse_elements (acc @ [v]) (skip_ws r')
               else None))"
| "parse_members acc s =
     (case s of
        [] \<Rightarrow> None
      | q # t \<Rightarrow>
          if q \<noteq> 0x22 then None
          else
            (case scan_string t of
               None \<Rightarrow> None
             | Some (k, r1) \<Rightarrow>
                 (case skip_ws r1 of
                    [] \<Rightarrow> None
                  | col # r2 \<Rightarrow>
                      if col \<noteq> 0x3A then None
                      else
                        (case parse_value (skip_ws r2) of
                           None \<Rightarrow> None
                         | Some (v, r3) \<Rightarrow>
                             (case skip_ws r3 of
                                [] \<Rightarrow> None
                              | d # r4 \<Rightarrow>
                                  if d = 0x7D then Some (JObj (CreateDataProperty k v acc), r4)
                                  else if d = 0x2C \<and> length r4 < length s
                                  then parse_members (CreateDataProperty k v acc) (skip_ws r4)
                                  else None)))))"
  by pat_completeness auto
termination
proof -
  have ws: "length (skip_ws s) \<le> length s" for s
    by (simp add: skip_ws_def length_dropWhile_le)
  have ws_cons: "length r < length s" if "skip_ws s = d # r" for s d r
    using ws [of s] that by simp
  have ws_less: "length (skip_ws r) < n" if "length r < n" for r n
    using ws [of r] that by simp
  have str: "length r < length s" if "scan_string s = Some (v, r)" for s v r
    using that
  proof (induction s arbitrary: v rule: scan_string.induct)
    case 1
    then show ?case by simp
  next
    case (2 c cs)
    then show ?case
      by (fastforce simp: cons_result_def split: if_splits list.splits option.splits)
  qed
  show ?thesis
    apply (relation "measures
        [\<lambda>x. case x of Inl s \<Rightarrow> length s | Inr (Inl (a, s)) \<Rightarrow> length s
                        | Inr (Inr (a, s)) \<Rightarrow> length s,
         \<lambda>x. case x of Inl s \<Rightarrow> 0 | Inr y \<Rightarrow> Suc 0]")
          apply (auto dest!: ws_cons str)
      apply (rule ws_less, simp)+
    done
qed

section \<open>Errors\<close>

text \<open>
  What the code can throw: the rejection of a backend call (\<open>invoke\<close>), the
  \<open>SyntaxError\<close> of \<open>JSON.parse\<close> (the serialization error of the specification) and
  the \<open>TypeError\<close> of reading a property of \<open>null\<close>.
\<close>

datatype error = BackendError | SerializationError | TypeError

definition JSON_parse :: "jsstring \<Rightarrow> error + json" where
  "JSON_parse text =
     (case parse_value (skip_ws text) of
        None \<Rightarrow> Inl SerializationError
      | Some (v, r) \<Rightarrow> if skip_ws r = [] then Inr v else Inl SerializationError)"

section \<open>The component's state\<close>

text \<open>
  The value of the writable store \<open>file\<close> and the component variable \<open>files\<close>.
  The store is declared with \<open>content: {file_name: string; content: string}\<close>, but the
  click handler of a list item writes whatever \<open>JSON.parse\<close> returns, so the model
  keeps a JSON value there. A record of \<open>files\<close> has the shape of the backend contract.
  The variable \<open>output\<close> is recomputed from the store by the library function
  \<open>marked\<close>, which is not part of the component's source; it is not modelled.
\<close>

record note_file =
  uuid :: jsstring
  content :: json

record persisted =
  f_uuid :: jsstring
  f_content :: jsstring

record app =
  "file" :: note_file
  files :: "persisted list"

definition init_app :: app where
  "init_app =
     \<lparr>file = \<lparr>uuid = [], content = JObj [(js ''content'', JStr []), (js ''file_name'', JStr [])]\<rparr>,
      files = []\<rparr>"

text \<open>
  The read \<open>$file.content.file_name\<close>: it throws on \<open>null\<close>, gives the property of an
  object, and \<open>undefined\<close> (\<open>None\<close>) where there is no such property.
\<close>

definition file_name_of :: "json \<Rightarrow> error + json option" where
  "file_name_of v =
     (case v of
        JNull \<Rightarrow> Inl TypeError
      | JObj ms \<Rightarrow> Inr (map_of ms (js ''file_name''))
      | _ \<Rightarrow> Inr None)"

section \<open>Backend calls\<close>

text \<open>
  The two commands passed to \<open>invoke\<close>, with their arguments. The backend is not part
  of the component: a call settles with the list it returns or with a rejection.
\<close>

datatype request =
    Save_file (fileName: "json option") (req_uuid: jsstring) (req_content: jsstring)
  | Get_files

type_synonym response = "error + persisted list"

section \<open>The handlers\<close>

text \<open>
  \<open>onClickSave\<close> up to its \<open>await\<close>: the identifier is the store's, or a fresh one when
  the store's is empty (\<open>$file.uuid || crypto.randomUUID()\<close>; the value the generator
  would return is the parameter \<open>randomUUID\<close>), and the arguments of \<open>save_file\<close> are
  read from the store. \<open>num\<close> prints a number, see \<open>JSON_stringify\<close>.
\<close>

definition onClickSave_call :: "(jsstring \<Rightarrow> jsstring) \<Rightarrow> jsstring \<Rightarrow> app \<Rightarrow> error + request" where
  "onClickSave_call num randomUUID st =
     (let uuid' = (if uuid (file st) = [] then randomUUID else uuid (file st))
      in case file_name_of (content (file st)) of
           Inl e \<Rightarrow> Inl e
         | Inr fn \<Rightarrow> Inr (Save_file fn uuid' (JSON_stringify num (content (file st)))))"

text \<open>
  \<open>onClickSave\<close> after its \<open>await\<close>: a rejection leaves the function, a list is copied
  into \<open>files\<close> (\<open>files = [...data]\<close>). Logging to the console is left out.
\<close>

definition onClickSave_resume :: "response \<Rightarrow> app \<Rightarrow> (error + unit) \<times> app" where
  "onClickSave_resume res st =
     (case res of
        Inl e \<Rightarrow> (Inl e, st)
      | Inr data \<Rightarrow> (Inr (), st\<lparr>files := data\<rparr>))"

text \<open>The whole of \<open>onClickSave\<close>, run against a backend that answers at once.\<close>

definition onClickSave :: "(request \<Rightarrow> response) \<Rightarrow> (jsstring \<Rightarrow> jsstring) \<Rightarrow> jsstring \<Rightarrow> app
    \<Rightarrow> (error + unit) \<times> app" where
  "onClickSave invoke num randomUUID st =
     (case onClickSave_call num randomUUID st of
        Inl e \<Rightarrow> (Inl e, st)
      | Inr req \<Rightarrow> onClickSave_resume (invoke req) st)"

text \<open>\<open>onClick\<close> (Load all notes): \<open>get_files\<close>, then \<open>files = [...data]\<close>.\<close>

definition onClick_resume :: "response \<Rightarrow> app \<Rightarrow> (error + unit) \<times> app" where
  "onClick_resume res st =
     (case res of
        Inl e \<Rightarrow> (Inl e, st)
      | Inr data \<Rightarrow> (Inr (), st\<lparr>files := data\<rparr>))"

definition onClick :: "(request \<Rightarrow> response) \<Rightarrow> app \<Rightarrow> (error + unit) \<times> app" where
  "onClick invoke st = onClick_resume (invoke Get_files) st"

text \<open>
  The click handler of a list item,
  \<open>file.update((u) => ({ ...f, content: JSON.parse(f.content) }))\<close>: when \<open>JSON.parse\<close>
  throws, the updater throws and the store keeps its value; otherwise the store's new
  value has the record's \<open>uuid\<close> and the parsed content, whatever the old value was.
\<close>

definition select :: "persisted \<Rightarrow> app \<Rightarrow> (error + unit) \<times> app" where
  "select f st =
     (case JSON_parse (f_content f) of
        Inl e \<Rightarrow> (Inl e, st)
      | Inr v \<Rightarrow> (Inr (), st\<lparr>file := \<lparr>uuid = f_uuid f, content = v\<rparr>\<rparr>))"

section \<open>Calls in flight\<close>

text \<open>
  A handler gives control back at its \<open>await\<close>, and other handlers can run before the
  call settles. The running system is the component's state together with the calls that
  were sent to the backend and have not settled yet. Pressing a button runs the handler up
  to its \<open>await\<close>: neither handler looks at what is in flight. The component calls
  \<open>onClick()\<close> once while it is set up, so it starts with one load in flight.
\<close>

record sys =
  component :: app
  outstanding :: "request list"

definition press_save :: "(jsstring \<Rightarrow> jsstring) \<Rightarrow> jsstring \<Rightarrow> sys \<Rightarrow> (error + unit) \<times> sys" where
  "press_save num randomUUID s =
     (case onClickSave_call num randomUUID (component s) of
        Inl e \<Rightarrow> (Inl e, s)
      | Inr req \<Rightarrow> (Inr (), s\<lparr>outstanding := outstanding s @ [req]\<rparr>))"

definition press_load :: "sys \<Rightarrow> (error + unit) \<times> sys" where
  "press_load s = (Inr (), s\<lparr>outstanding := outstanding s @ [Get_files]\<rparr>)"

definition mounted :: sys where
  "mounted = snd (press_load \<lparr>component = init_app, outstanding = []\<rparr>)"

section \<open>Notions of the specification\<close>

text \<open>
  The specification reads the content of a record back into a note, a title and a body:
  the fields \<open>file_name\<close> and \<open>content\<close> of the parsed object, both strings.
\<close>

definition as_note :: "json \<Rightarrow> (jsstring \<times> jsstring) option" where
  "as_note v =
     (case v of
        JObj ms \<Rightarrow>
          (case (map_of ms (js ''file_name''), map_of ms (js ''content'')) of
             (Some (JStr t), Some (JStr b)) \<Rightarrow> Some (t, b)
           | _ \<Rightarrow> None)
      | _ \<Rightarrow> None)"

definition deserialize :: "jsstring \<Rightarrow> (jsstring \<times> jsstring) option" where
  "deserialize c = (case JSON_parse c of Inl e \<Rightarrow> None | Inr v \<Rightarrow> as_note v)"

text \<open>
  Modelled from the spec: the storage backend behind \<open>invoke\<close>, which is not part of the
  component's source. Section 6 of the specification: \<open>save_file\<close> "upserts a record by
  uuid, returns the full updated set", and \<open>get_files\<close> returns the full current set.
  \<open>db\<close> is the set the backend holds when it is called.
\<close>

fun upsert :: "persisted \<Rightarrow> persisted list \<Rightarrow> persisted list" where
  "upsert r [] = [r]"
| "upsert r (x # xs) = (if f_uuid x = f_uuid r then r # xs else x # upsert r xs)"

definition backend :: "persisted list \<Rightarrow> request \<Rightarrow> response" where
  "backend db req =
     (case req of
        Save_file fn u c \<Rightarrow> Inr (upsert \<lparr>f_uuid = u, f_content = c\<rparr> db)
      | Get_files \<Rightarrow> Inr db)"

section \<open>Sample inputs\<close>

text \<open>
  The note of the specification's round-trip example, not saved yet, an identifier as
  \<open>crypto.randomUUID()\<close> returns them, and a backend that fails.
\<close>

definition draft :: app where
  "draft =
     \<lparr>file = \<lparr>uuid = [],
              content = JObj [(js ''content'', JStr (js ''# Hi'')), (js ''file_name'', JStr (js ''T''))]\<rparr>,
      files = []\<rparr>"

definition uuid0 :: jsstring where
  "uuid0 = js ''123e4567-e89b-42d3-a456-426614174000''"

definition failing :: "request \<Rightarrow> response" where
  "failing req = Inl BackendError"

section \<open>The parser consumes input\<close>

lemma length_skip_ws: "length (skip_ws s) \<le> length s"
  by (simp add: skip_ws_def length_dropWhile_le)

lemma skip_ws_Cons_length: "skip_ws s = d # r \<Longrightarrow> length r < length s"
  using length_skip_ws [of s] by simp

lemma scan_string_length: "scan_string s = Some (v, r) \<Longrightarrow> length r < length s"
proof (induction s arbitrary: v rule: scan_string.induct)
  case 1
  then show ?case by simp
next
  case (2 c cs)
  then show ?case
    by (fastforce simp: cons_result_def split: if_splits list.splits option.splits)
qed

lemma strip_prefix_length: "strip_prefix p s = Some r \<Longrightarrow> length r \<le> length s"
  by (induction p s rule: strip_prefix.induct) (auto split: if_splits)

lemma scan_exponent_length: "scan_exponent l s = Some (t, r) \<Longrightarrow> length r \<le> length s"
  by (auto simp: scan_exponent_def Let_def split: list.splits if_splits
        intro: le_trans [OF length_dropWhile_le] le_SucI)

lemma scan_fraction_length: "scan_fraction l s = Some (t, r) \<Longrightarrow> length r \<le> length s"
  by (auto simp: scan_fraction_def split: list.splits if_splits
        dest!: scan_exponent_length intro: le_trans [OF _ length_dropWhile_le] le_SucI)

lemma scan_int_length: "scan_int l s = Some (t, r) \<Longrightarrow> length r < length s"
  by (auto simp: scan_int_def split: list.splits if_splits
        dest!: scan_fraction_length intro: le_trans [OF _ length_dropWhile_le] le_imp_less_Suc)

lemma scan_number_length: "scan_number s = Some (t, r) \<Longrightarrow> length r < length s"
  by (auto simp: scan_number_def split: list.splits if_splits dest!: scan_int_length)

lemma parse_value_shrinks:
  "parse_value s = Some (v, r) \<Longrightarrow> length r < length s"
  "parse_elements acc s = Some (v, r) \<Longrightarrow> length r < length s"
  "parse_members macc s = Some (v, r) \<Longrightarrow> length r < length s"
proof (induction s and acc s and macc s arbitrary: v r and v r and v r
    rule: parse_value_parse_elements_parse_members.induct)
  case 1
  then show ?case by simp
next
  case (2 c cs)
  show ?case
    using "2.prems" "2.IH"
    by (fastforce simp del: parse_elements.simps parse_members.simps scan_string.simps
        split: if_splits option.splits list.splits
        dest!: scan_string_length strip_prefix_length scan_number_length skip_ws_Cons_length)
next
  case (3 acc s)
  show ?case
    using "3.prems" "3.IH"
    apply (subst (asm) parse_elements.simps)
    apply (auto simp del: parse_elements.simps parse_members.simps parse_value.simps
        split: if_splits option.splits list.splits
        dest!: skip_ws_Cons_length)
    subgoal for w r1 r2
      using length_skip_ws [of r2] by fastforce
    done
next
  case (4 macc s)
  show ?case
    using "4.prems" "4.IH"
    apply (subst (asm) parse_members.simps)
    apply (auto simp del: parse_elements.simps parse_members.simps parse_value.simps
          scan_string.simps
        split: if_splits option.splits list.splits
        dest!: skip_ws_Cons_length scan_string_length)
    subgoal for t k r1 r2 w r3
      using length_skip_ws [of r2] by fastforce
    subgoal for t k r1 r2 w r3 r4
      using length_skip_ws [of r2] length_skip_ws [of r4] by fastforce
    done
qed

text \<open>So the length tests of \<open>parse_elements\<close> and \<open>parse_members\<close> never fail.\<close>

lemma parse_elements_unguarded:
  "parse_elements acc s =
     (case parse_value s of
        None \<Rightarrow> None
      | Some (v, r) \<Rightarrow>
          (case skip_ws r of
             [] \<Rightarrow> None
           | d # r' \<Rightarrow>
               if d = 0x5D then Some (JArr (acc @ [v]), r')
               else if d = 0x2C then parse_elements (acc @ [v]) (skip_ws r')
               else None))"
  apply (subst parse_elements.simps)
  apply (auto simp del: parse_elements.simps parse_value.simps
      split: option.splits list.splits dest!: parse_value_shrinks(1) skip_ws_Cons_length)
  done

lemma parse_members_unguarded:
  "parse_members acc s =
     (case s of
        [] \<Rightarrow> None
      | q # t \<Rightarrow>
          if q \<noteq> 0x22 then None
          else
            (case scan_string t of
               None \<Rightarrow> None
             | Some (k, r1) \<Rightarrow>
                 (case skip_ws r1 of
                    [] \<Rightarrow> None
                  | col # r2 \<Rightarrow>
                      if col \<noteq> 0x3A then None
                      else
                        (case parse_value (skip_ws r2) of
                           None \<Rightarrow> None
                         | Some (v, r3) \<Rightarrow>
                             (case skip_ws r3 of
                                [] \<Rightarrow> None
                              | d # r4 \<Rightarrow>
                                  if d = 0x7D then Some (JObj (CreateDataProperty k v acc), r4)
                                  else if d = 0x2C
                                  then parse_members (CreateDataProperty k v acc) (skip_ws r4)
                                  else None)))))"
  apply (subst parse_members.simps)
  apply (auto simp del: parse_members.simps parse_value.simps scan_string.simps
      split: option.splits list.splits
      dest!: parse_value_shrinks(1) skip_ws_Cons_length scan_string_length)
  subgoal for t k r1 r2 w r3 r4
    using length_skip_ws [of r2] by simp
  done

section \<open>Quoting a string and reading it back\<close>

lemma unat_hex_digit: "n < 16 \<Longrightarrow> unat (hex_digit n) = (if n < 10 then 48 + n else 87 + n)"
  unfolding hex_digit_def by (simp only: unat_of_nat if_distrib [of unat]) simp

lemma hex_value_hex_digit: "n < 16 \<Longrightarrow> hex_value (hex_digit n) = Some n"
  unfolding hex_value_def word_le_nat_alt by (simp add: unat_hex_digit)

lemma hex_recompose:
  fixes n :: nat
  shows "((n div 4096 * 16 + n div 256 mod 16) * 16 + n div 16 mod 16) * 16 + n mod 16 = n"
proof -
  have a: "n div 256 = n div 16 div 16" and b: "n div 4096 = n div 16 div 16 div 16"
    by (simp_all add: div_mult2_eq)
  show ?thesis
    unfolding a b by (simp add: div_mult_mod_eq)
qed

lemma unat_code_unit: "unat (c :: code_unit) < 65536"
  using unsigned_less [of c, where 'a = nat] by simp

lemma hex4_UnicodeEscape:
  "hex4 (hex_digit (unat c div 4096)) (hex_digit (unat c div 256 mod 16))
        (hex_digit (unat c div 16 mod 16)) (hex_digit (unat c mod 16)) = Some c"
proof -
  have "unat c div 4096 < 16" using unat_code_unit [of c] by simp
  then have v1: "hex_value (hex_digit (unat c div 4096)) = Some (unat c div 4096)"
    by (rule hex_value_hex_digit)
  have v2: "hex_value (hex_digit (unat c div 256 mod 16)) = Some (unat c div 256 mod 16)"
    and v3: "hex_value (hex_digit (unat c div 16 mod 16)) = Some (unat c div 16 mod 16)"
    and v4: "hex_value (hex_digit (unat c mod 16)) = Some (unat c mod 16)"
    by (simp_all add: hex_value_hex_digit)
  have "hex4 (hex_digit (unat c div 4096)) (hex_digit (unat c div 256 mod 16))
          (hex_digit (unat c div 16 mod 16)) (hex_digit (unat c mod 16))
        = Some (of_nat (unat c))"
    unfolding hex4_def v1 v2 v3 v4 by (simp only: hex_recompose prod.case option.case)
  then show ?thesis by simp
qed

lemma scan_string_UnicodeEscape:
  "scan_string (UnicodeEscape c @ rest) = cons_result c (scan_string rest)"
  by (simp add: UnicodeEscape_def Let_def hex4_UnicodeEscape)

lemma scan_string_plain:
  "c \<noteq> 0x22 \<Longrightarrow> c \<noteq> 0x5C \<Longrightarrow> \<not> c < 0x20 \<Longrightarrow>
   scan_string (c # rest) = cons_result c (scan_string rest)"
  by simp

lemma scan_string_quote_unit:
  "scan_string (quote_unit c @ rest) = cons_result c (scan_string rest)"
  by (simp add: quote_unit_def scan_string_UnicodeEscape simple_escape_def
        del: scan_string.simps)
     (simp add: simple_escape_def)

lemma lead_plain: "is_lead c \<Longrightarrow> c \<noteq> 0x22 \<and> c \<noteq> 0x5C \<and> \<not> c < 0x20"
  by (auto simp: is_lead_def word_le_nat_alt word_less_nat_alt)

lemma trail_plain: "is_trail c \<Longrightarrow> c \<noteq> 0x22 \<and> c \<noteq> 0x5C \<and> \<not> c < 0x20"
  by (auto simp: is_trail_def word_le_nat_alt word_less_nat_alt)

lemma scan_string_quote_units:
  "scan_string (quote_units s @ rest) =
     (case scan_string rest of None \<Rightarrow> None | Some (t, u) \<Rightarrow> Some (s @ t, u))"
proof (induction s rule: quote_units.induct)
  case 1
  show ?case by (simp split: option.splits)
next
  case (2 c)
  show ?case
    by (simp add: scan_string_quote_unit cons_result_def del: scan_string.simps
          split: option.splits)
next
  case (3 c d s)
  show ?case
  proof (cases "is_lead c \<and> is_trail d")
    case True
    then have "scan_string (quote_units (c # d # s) @ rest)
        = cons_result c (cons_result d (scan_string (quote_units s @ rest)))"
      using lead_plain [of c] trail_plain [of d]
      by (simp add: scan_string_plain del: scan_string.simps)
    then show ?thesis
      using 3(1) [OF True]
      by (simp add: cons_result_def del: scan_string.simps split: option.splits)
  next
    case False
    then have "scan_string (quote_units (c # d # s) @ rest)
        = cons_result c (scan_string (quote_units (d # s) @ rest))"
      by (auto simp add: scan_string_quote_unit simp del: scan_string.simps)
    then show ?thesis
      using 3(2) [OF False]
      by (simp add: cons_result_def del: scan_string.simps split: option.splits)
  qed
qed

lemma scan_string_quoted:
  "scan_string (quote_units s @ 0x22 # rest) = Some (s, rest)"
  by (simp add: scan_string_quote_units)

lemma parse_value_quoted:
  "parse_value (0x22 # quote_units s @ 0x22 # rest) = Some (JStr s, rest)"
  by (simp add: scan_string_quoted del: scan_string.simps)

text \<open>
  Every string is read back from its quoted form: \<open>JSON.parse(JSON.stringify(s)) = s\<close>.
\<close>

lemma JSON_parse_QuoteJSONString: "JSON_parse (QuoteJSONString s) = Inr (JStr s)"
  by (simp add: JSON_parse_def QuoteJSONString_def skip_ws_def is_ws_def parse_value_quoted
        del: parse_value.simps)

section \<open>An object of two strings\<close>

lemma skip_ws_simps:
  "skip_ws (0x22 # s) = 0x22 # s" "skip_ws (0x3A # s) = 0x3A # s"
  "skip_ws (0x2C # s) = 0x2C # s" "skip_ws (0x7D # s) = 0x7D # s"
  "skip_ws (0x7B # s) = 0x7B # s" "skip_ws [] = []"
  by (simp_all add: skip_ws_def is_ws_def)

lemma parse_members_last:
  "parse_members acc
     (0x22 # quote_units k @ 0x22 # 0x3A # 0x22 # quote_units a @ 0x22 # 0x7D # rest)
     = Some (JObj (CreateDataProperty k (JStr a) acc), rest)"
  by (subst parse_members.simps)
     (simp add: scan_string_quoted skip_ws_simps parse_value_quoted
           del: scan_string.simps parse_value.simps parse_members.simps)

lemma parse_members_next:
  "parse_members acc
     (0x22 # quote_units k @ 0x22 # 0x3A # 0x22 # quote_units a @ 0x22 # 0x2C # 0x22 # rest)
     = parse_members (CreateDataProperty k (JStr a) acc) (0x22 # rest)"
  by (subst parse_members.simps)
     (simp add: scan_string_quoted skip_ws_simps parse_value_quoted
           del: scan_string.simps parse_value.simps parse_members.simps)

lemma parse_value_object:
  "parse_value (0x7B # 0x22 # s) = parse_members [] (0x22 # s)"
  by (simp add: skip_ws_simps del: parse_members.simps)

lemma CreateDataProperty_two:
  "k1 \<noteq> k2 \<Longrightarrow> array_index k1 = None \<Longrightarrow> array_index k2 = None \<Longrightarrow>
   CreateDataProperty k2 w (CreateDataProperty k1 v []) = [(k1, v), (k2, w)]"
  by (simp add: CreateDataProperty_def)

lemma JSON_parse_stringify_two:
  assumes "k1 \<noteq> k2" "array_index k1 = None" "array_index k2 = None"
  shows "JSON_parse (JSON_stringify num (JObj [(k1, JStr a), (k2, JStr b)]))
           = Inr (JObj [(k1, JStr a), (k2, JStr b)])"
  using assms
  by (simp add: JSON_parse_def QuoteJSONString_def skip_ws_simps parse_value_object
        parse_members_next parse_members_last CreateDataProperty_two
        del: parse_value.simps parse_members.simps)

lemma array_index_names:
  "array_index (js ''content'') = None" "array_index (js ''file_name'') = None"
  by (simp_all add: array_index_def js_def cu_def is_digit_def)

lemma names_distinct: "js ''content'' \<noteq> js ''file_name''"
  by (simp add: js_def cu_def)

section \<open>Facts about the handlers\<close>

lemma onClickSave_call_uuid:
  "onClickSave_call num randomUUID st = Inr req \<Longrightarrow>
   req_uuid req = (if uuid (file st) = [] then randomUUID else uuid (file st))"
  by (auto simp: onClickSave_call_def Let_def split: sum.splits)

lemma onClickSave_call_content:
  "onClickSave_call num randomUUID st = Inr req \<Longrightarrow>
   req_content req = JSON_stringify num (content (file st))"
  by (auto simp: onClickSave_call_def Let_def split: sum.splits)

lemma onClickSave_settled:
  "onClickSave_call num randomUUID st = Inr req \<Longrightarrow>
   onClickSave invoke num randomUUID st =
     (case invoke req of Inl e \<Rightarrow> (Inl e, st) | Inr data \<Rightarrow> (Inr (), st\<lparr>files := data\<rparr>))"
  by (simp add: onClickSave_def onClickSave_resume_def)

lemma onClickSave_call_draft:
  "onClickSave_call id uuid0 draft
     = Inr (Save_file (Some (JStr (js ''T''))) uuid0 (JSON_stringify id (content (file draft))))"
  by (simp add: onClickSave_call_def draft_def file_name_of_def js_def cu_def)

lemma onClickSave_call_init:
  "onClickSave_call id uuid0 init_app
     = Inr (Save_file (Some (JStr [])) uuid0 (JSON_stringify id (content (file init_app))))"
  by (simp add: onClickSave_call_def init_app_def file_name_of_def js_def cu_def)

lemma upsert_member: "r \<in> set (upsert r db)"
  by (induction db) auto

lemma not_JSON: "JSON_parse (js ''# Hi'') = Inl SerializationError"
  by (simp add: JSON_parse_def js_def cu_def skip_ws_def is_ws_def scan_number_def
        scan_int_def is_digit_def)

lemma JSON_null: "JSON_parse (js ''null'') = Inr JNull"
  by (simp add: JSON_parse_def js_def cu_def skip_ws_def is_ws_def)

lemma JSON_parse_draft:
  "JSON_parse (JSON_stringify id (content (file draft))) = Inr (content (file draft))"
  by (simp add: draft_def JSON_parse_stringify_two names_distinct array_index_names
        del: JSON_stringify.simps)

section \<open>Saving\<close>

text \<open>
  C1 (amended). A save that starts from a store with an empty \<open>uuid\<close> passes the freshly
  generated identifier to the backend; when the backend call succeeds, the list is
  replaced by the backend's answer and the store is left as it was, so its \<open>uuid\<close> is
  still empty afterwards.
\<close>

theorem save_passes_fresh_uuid_and_keeps_store:
  assumes "uuid (file st) = []"
    and "onClickSave_call num randomUUID st = Inr req"
    and "invoke req = Inr data"
  shows "req_uuid req = randomUUID
     \<and> onClickSave invoke num randomUUID st = (Inr (), st\<lparr>files := data\<rparr>)
     \<and> uuid (file (snd (onClickSave invoke num randomUUID st))) = []"
  using assms onClickSave_call_uuid [OF assms(2)] onClickSave_settled [OF assms(2), of invoke]
  by simp

theorem save_passes_fresh_uuid_and_keeps_store_witness:
  "uuid (file draft) = []
   \<and> req_uuid (Save_file (Some (JStr (js ''T''))) uuid0
        (JSON_stringify id (content (file draft)))) = uuid0
   \<and> onClickSave (backend []) id uuid0 draft
       = (Inr (), draft\<lparr>files := [\<lparr>f_uuid = uuid0,
            f_content = JSON_stringify id (content (file draft))\<rparr>]\<rparr>)
   \<and> uuid (file (snd (onClickSave (backend []) id uuid0 draft))) = []"
proof -
  have h1: "uuid (file draft) = []" by (simp add: draft_def)
  have h3: "backend [] (Save_file (Some (JStr (js ''T''))) uuid0
        (JSON_stringify id (content (file draft))))
      = Inr [\<lparr>f_uuid = uuid0, f_content = JSON_stringify id (content (file draft))\<rparr>]"
    by (simp add: backend_def)
  show ?thesis
    using save_passes_fresh_uuid_and_keeps_store
        [where invoke = "backend []", OF h1 onClickSave_call_draft h3] h1
    by simp
qed

text \<open>
  C1 as stated fails: after a successful save of the unsaved sample note, the store's
  \<open>uuid\<close> is empty, not the identifier that went to the backend.
\<close>

theorem save_sets_store_uuid_counterexample:
  "uuid (file draft) = []
   \<and> fst (onClickSave (backend []) id uuid0 draft) = Inr ()
   \<and> \<not> (uuid (file (snd (onClickSave (backend []) id uuid0 draft))) \<noteq> []
        \<and> uuid (file (snd (onClickSave (backend []) id uuid0 draft))) = uuid0)"
proof -
  have "onClickSave (backend []) id uuid0 draft
      = (Inr (), draft\<lparr>files := [\<lparr>f_uuid = uuid0,
            f_content = JSON_stringify id (content (file draft))\<rparr>]\<rparr>)"
    using onClickSave_settled [OF onClickSave_call_draft, of "backend []"]
    by (simp add: backend_def)
  then show ?thesis by (simp add: draft_def)
qed

text \<open>
  C3. When the backend call of a save fails, the error is the outcome of the handler and
  the store and the list are exactly what they were before.
\<close>

theorem save_failure_changes_nothing:
  assumes "onClickSave_call num randomUUID st = Inr req"
    and "invoke req = Inl e"
  shows "onClickSave invoke num randomUUID st = (Inl e, st)"
  using onClickSave_settled [OF assms(1), of invoke] assms(2) by simp

theorem save_failure_changes_nothing_witness:
  "failing (Save_file (Some (JStr (js ''T''))) uuid0 (JSON_stringify id (content (file draft))))
     = Inl BackendError
   \<and> onClickSave failing id uuid0 draft = (Inl BackendError, draft)"
proof -
  have h2: "failing (Save_file (Some (JStr (js ''T''))) uuid0
      (JSON_stringify id (content (file draft)))) = Inl BackendError"
    by (simp add: failing_def)
  show ?thesis
    using save_failure_changes_nothing [where invoke = failing, OF onClickSave_call_draft h2] h2
    by simp
qed

text \<open>
  C10. Whatever the backend answers, and also when the handler throws before the call,
  a save leaves the store as it was: only the list can differ afterwards. In particular
  the title and the body of the note are unchanged.
\<close>

theorem save_writes_only_files:
  "file (snd (onClickSave invoke num randomUUID st)) = file st
   \<and> snd (onClickSave invoke num randomUUID st)
       = st\<lparr>files := files (snd (onClickSave invoke num randomUUID st))\<rparr>"
  by (simp add: onClickSave_def onClickSave_resume_def split: sum.splits)

text \<open>
  C6. From a store with an empty \<open>uuid\<close> whose content is a note of title \<open>T\<close> and body
  \<open>B\<close> (the two fields in either order), a save against the upserting backend succeeds,
  and the list then holds a record, under the identifier that was generated, whose
  content reads back as exactly \<open>T\<close> and \<open>B\<close>.
\<close>

theorem save_round_trip:
  assumes "uuid (file st) = []"
    and "content (file st) = JObj [(js ''content'', JStr B), (js ''file_name'', JStr T)]
       \<or> content (file st) = JObj [(js ''file_name'', JStr T), (js ''content'', JStr B)]"
  shows "fst (onClickSave (backend db) num randomUUID st) = Inr ()
     \<and> (\<exists>r \<in> set (files (snd (onClickSave (backend db) num randomUUID st))).
          f_uuid r = randomUUID \<and> deserialize (f_content r) = Some (T, B))"
proof -
  let ?c = "JSON_stringify num (content (file st))"
  let ?r = "\<lparr>f_uuid = randomUUID, f_content = ?c\<rparr>"
  have fn: "file_name_of (content (file st)) = Inr (Some (JStr T))"
    using assms(2) names_distinct by (auto simp: file_name_of_def)
  have call: "onClickSave_call num randomUUID st = Inr (Save_file (Some (JStr T)) randomUUID ?c)"
    using assms(1) fn by (simp add: onClickSave_call_def)
  have run: "onClickSave (backend db) num randomUUID st
      = (Inr (), st\<lparr>files := upsert ?r db\<rparr>)"
    using onClickSave_settled [OF call, of "backend db"] by (simp add: backend_def)
  have parse: "JSON_parse ?c = Inr (content (file st))"
    using assms(2) names_distinct names_distinct [symmetric] array_index_names
    by (auto simp add: JSON_parse_stringify_two simp del: JSON_stringify.simps)
  have "as_note (content (file st)) = Some (T, B)"
    using assms(2) names_distinct by (auto simp: as_note_def)
  with parse have "deserialize (f_content ?r) = Some (T, B)"
    by (simp add: deserialize_def)
  moreover have "?r \<in> set (upsert ?r db)" by (rule upsert_member)
  ultimately show ?thesis
    unfolding run by (intro conjI bexI [of _ ?r]) simp_all
qed

theorem save_round_trip_witness:
  "uuid (file draft) = []
   \<and> fst (onClickSave (backend []) id uuid0 draft) = Inr ()
   \<and> (\<exists>r \<in> set (files (snd (onClickSave (backend []) id uuid0 draft))).
        f_uuid r = uuid0 \<and> deserialize (f_content r) = Some (js ''T'', js ''# Hi''))"
proof -
  have h1: "uuid (file draft) = []" by (simp add: draft_def)
  have h2: "content (file draft)
        = JObj [(js ''content'', JStr (js ''# Hi'')), (js ''file_name'', JStr (js ''T''))]
      \<or> content (file draft)
        = JObj [(js ''file_name'', JStr (js ''T'')), (js ''content'', JStr (js ''# Hi''))]"
    by (simp add: draft_def)
  show ?thesis
    using save_round_trip [OF h1 h2, of "[]" id uuid0] h1 by simp
qed

section \<open>Loading\<close>

text \<open>
  C8. When the backend call of a load fails, the error is the outcome of the handler and
  the list is what it was before; when it succeeds, the list is the backend's list,
  whatever it held before. The store is untouched either way.
\<close>

theorem load_replaces_or_keeps_files:
  "(invoke Get_files = Inl e \<longrightarrow> onClick invoke st = (Inl e, st))
   \<and> (invoke Get_files = Inr data \<longrightarrow> onClick invoke st = (Inr (), st\<lparr>files := data\<rparr>))"
  by (simp add: onClick_def onClick_resume_def)

theorem load_replaces_or_keeps_files_witness:
  "failing Get_files = Inl BackendError
   \<and> onClick failing (draft\<lparr>files := [\<lparr>f_uuid = uuid0, f_content = js ''null''\<rparr>]\<rparr>)
       = (Inl BackendError, draft\<lparr>files := [\<lparr>f_uuid = uuid0, f_content = js ''null''\<rparr>]\<rparr>)
   \<and> backend [] Get_files = Inr []
   \<and> onClick (backend []) (draft\<lparr>files := [\<lparr>f_uuid = uuid0, f_content = js ''null''\<rparr>]\<rparr>)
       = (Inr (), draft\<lparr>files := []\<rparr>)"
proof -
  let ?st = "draft\<lparr>files := [\<lparr>f_uuid = uuid0, f_content = js ''null''\<rparr>]\<rparr>"
  have h1: "failing Get_files = Inl BackendError" by (simp add: failing_def)
  have h2: "backend [] Get_files = Inr []" by (simp add: backend_def)
  show ?thesis
    using load_replaces_or_keeps_files [of failing BackendError ?st "[]"]
      load_replaces_or_keeps_files [of "backend []" BackendError ?st "[]"] h1 h2
    by simp
qed

section \<open>Selecting a record\<close>

lemma JSON_parse_error: "JSON_parse text = Inl e \<Longrightarrow> e = SerializationError"
  by (auto simp: JSON_parse_def split: option.splits if_splits)

text \<open>
  C5 (amended). When the content of a record is not JSON text, so that \<open>JSON.parse\<close>
  throws, selecting the record has the serialization error as its outcome and leaves
  the store and the list unchanged.
\<close>

theorem select_invalid_JSON_changes_nothing:
  assumes "JSON_parse (f_content f) = Inl e"
  shows "select f st = (Inl SerializationError, st)"
  using assms JSON_parse_error [OF assms] by (simp add: select_def)

theorem select_invalid_JSON_changes_nothing_witness:
  "JSON_parse (f_content \<lparr>f_uuid = uuid0, f_content = js ''# Hi''\<rparr>) = Inl SerializationError
   \<and> select \<lparr>f_uuid = uuid0, f_content = js ''# Hi''\<rparr> draft = (Inl SerializationError, draft)"
proof -
  have h: "JSON_parse (f_content \<lparr>f_uuid = uuid0, f_content = js ''# Hi''\<rparr>)
      = Inl SerializationError"
    using not_JSON by simp
  show ?thesis
    using select_invalid_JSON_changes_nothing [OF h, of draft] h by simp
qed

text \<open>
  C5 as stated fails: the content \<open>null\<close> is JSON text that does not read back as a
  title and a body, yet selecting the record raises nothing and overwrites the store.
\<close>

theorem select_unparsable_counterexample:
  "deserialize (f_content \<lparr>f_uuid = uuid0, f_content = js ''null''\<rparr>) = None
   \<and> \<not> (select \<lparr>f_uuid = uuid0, f_content = js ''null''\<rparr> draft
          = (Inl SerializationError, draft))
   \<and> file (snd (select \<lparr>f_uuid = uuid0, f_content = js ''null''\<rparr> draft))
       = \<lparr>uuid = uuid0, content = JNull\<rparr>
   \<and> file (snd (select \<lparr>f_uuid = uuid0, f_content = js ''null''\<rparr> draft)) \<noteq> file draft"
  by (simp add: deserialize_def as_note_def select_def JSON_null draft_def)

text \<open>
  C7. When the content of a record parses, selecting the record puts the record's
  \<open>uuid\<close> and the parsed content in the store, and selecting it again right away gives
  the same outcome and the same state.
\<close>

theorem select_twice_same_store:
  assumes "JSON_parse (f_content f) = Inr v"
  shows "file (snd (select f st)) = \<lparr>uuid = f_uuid f, content = v\<rparr>
     \<and> file (snd (select f (snd (select f st)))) = file (snd (select f st))
     \<and> select f (snd (select f st)) = select f st"
  using assms by (simp add: select_def)

theorem select_twice_same_store_witness:
  "JSON_parse (f_content \<lparr>f_uuid = uuid0,
       f_content = JSON_stringify id (content (file draft))\<rparr>) = Inr (content (file draft))
   \<and> file (snd (select \<lparr>f_uuid = uuid0,
         f_content = JSON_stringify id (content (file draft))\<rparr> init_app))
       = \<lparr>uuid = uuid0, content = content (file draft)\<rparr>
   \<and> select \<lparr>f_uuid = uuid0, f_content = JSON_stringify id (content (file draft))\<rparr>
         (snd (select \<lparr>f_uuid = uuid0,
            f_content = JSON_stringify id (content (file draft))\<rparr> init_app))
       = select \<lparr>f_uuid = uuid0, f_content = JSON_stringify id (content (file draft))\<rparr>
           init_app"
proof -
  let ?f = "\<lparr>f_uuid = uuid0, f_content = JSON_stringify id (content (file draft))\<rparr>"
  have h: "JSON_parse (f_content ?f) = Inr (content (file draft))"
    using JSON_parse_draft by simp
  show ?thesis
    using select_twice_same_store [OF h, of init_app] h by simp
qed

section \<open>Requests while a call is in flight\<close>

lemma outstanding_press_load_funpow:
  "length (outstanding (((\<lambda>s. snd (press_load s)) ^^ n) s)) = length (outstanding s) + n"
  by (induction n) (simp_all add: press_load_def)

text \<open>
  C2 (amended). In every state, also with calls in flight, a load request and a save
  request are accepted: the call goes to the backend at once (for a save, when reading
  its arguments from the store does not throw), one more call is in flight, and the
  store and the list are as they were. After \<open>n\<close> further load requests \<open>n\<close> more calls
  are in flight.
\<close>

theorem press_adds_outstanding_call:
  "press_load s = (Inr (), s\<lparr>outstanding := outstanding s @ [Get_files]\<rparr>)
   \<and> (onClickSave_call num randomUUID (component s) = Inr req \<longrightarrow>
        press_save num randomUUID s = (Inr (), s\<lparr>outstanding := outstanding s @ [req]\<rparr>))
   \<and> component (snd (press_load s)) = component s
   \<and> component (snd (press_save num randomUUID s)) = component s
   \<and> length (outstanding (((\<lambda>s. snd (press_load s)) ^^ n) s)) = length (outstanding s) + n"
  using outstanding_press_load_funpow [of n s]
  by (simp add: press_load_def press_save_def split: sum.splits)

theorem press_adds_outstanding_call_witness:
  "onClickSave_call id uuid0 (component mounted)
     = Inr (Save_file (Some (JStr [])) uuid0 (JSON_stringify id (content (file init_app))))
   \<and> press_save id uuid0 mounted
     = (Inr (), mounted\<lparr>outstanding := outstanding mounted
          @ [Save_file (Some (JStr [])) uuid0 (JSON_stringify id (content (file init_app)))]\<rparr>)
   \<and> length (outstanding (((\<lambda>s. snd (press_load s)) ^^ 3) mounted)) = 4"
proof -
  have c: "component mounted = init_app" by (simp add: mounted_def press_load_def)
  have h: "onClickSave_call id uuid0 (component mounted)
      = Inr (Save_file (Some (JStr [])) uuid0 (JSON_stringify id (content (file init_app))))"
    unfolding c by (rule onClickSave_call_init)
  have l: "length (outstanding mounted) = 1" by (simp add: mounted_def press_load_def)
  show ?thesis
    using press_adds_outstanding_call [of mounted id uuid0
        "Save_file (Some (JStr [])) uuid0 (JSON_stringify id (content (file init_app)))" 3] h l
    by simp
qed

text \<open>
  C2 as stated fails: while the load that the component starts with is in flight, a save
  request is not rejected and sends its own call, so two calls are in flight.
\<close>

theorem single_flight_counterexample:
  "outstanding mounted = [Get_files]
   \<and> fst (press_save id uuid0 mounted) = Inr ()
   \<and> length (outstanding (snd (press_save id uuid0 mounted))) = 2
   \<and> \<not> length (outstanding (snd (press_save id uuid0 mounted))) \<le> 1"
proof -
  have c: "component mounted = init_app" by (simp add: mounted_def press_load_def)
  have o: "outstanding mounted = [Get_files]" by (simp add: mounted_def press_load_def)
  have "press_save id uuid0 mounted
      = (Inr (), mounted\<lparr>outstanding := outstanding mounted
          @ [Save_file (Some (JStr [])) uuid0 (JSON_stringify id (content (file init_app)))]\<rparr>)"
    by (simp add: press_save_def c onClickSave_call_init)
  then show ?thesis using o by simp
qed

end
